theory Spec2Isabelle
  imports Complex_Main
begin

section \<open>Floating-point values\<close>

text \<open>
  The module computes with numpy arrays of IEEE-754 doubles. A finite double is modelled
  as the real number it denotes: arithmetic on finite values is exact (no rounding, no
  overflow, no underflow) and the two zeros are one value, taken as the positive zero
  where its sign decides a result. The special values are explicit, because \<open>point\<close>
  produces them: numpy does not raise on a division by zero, it returns an infinity or a
  NaN and goes on computing with it.
\<close>

datatype fl = Fin real | PInf | NInf | NaN

fun fl_add :: "fl \<Rightarrow> fl \<Rightarrow> fl" where
  "fl_add NaN y = NaN"
| "fl_add x NaN = NaN"
| "fl_add (Fin a) (Fin b) = Fin (a + b)"
| "fl_add (Fin a) PInf = PInf"
| "fl_add (Fin a) NInf = NInf"
| "fl_add PInf (Fin b) = PInf"
| "fl_add NInf (Fin b) = NInf"
| "fl_add PInf PInf = PInf"
| "fl_add NInf NInf = NInf"
| "fl_add PInf NInf = NaN"
| "fl_add NInf PInf = NaN"

fun fl_neg :: "fl \<Rightarrow> fl" where
  "fl_neg (Fin a) = Fin (- a)"
| "fl_neg PInf = NInf"
| "fl_neg NInf = PInf"
| "fl_neg NaN = NaN"

definition fl_sub :: "fl \<Rightarrow> fl \<Rightarrow> fl" where
  "fl_sub x y = fl_add x (fl_neg y)"

fun fl_mul :: "fl \<Rightarrow> fl \<Rightarrow> fl" where
  "fl_mul NaN y = NaN"
| "fl_mul x NaN = NaN"
| "fl_mul (Fin a) (Fin b) = Fin (a * b)"
| "fl_mul (Fin a) PInf = (if a = 0 then NaN else if 0 < a then PInf else NInf)"
| "fl_mul (Fin a) NInf = (if a = 0 then NaN else if 0 < a then NInf else PInf)"
| "fl_mul PInf (Fin b) = (if b = 0 then NaN else if 0 < b then PInf else NInf)"
| "fl_mul NInf (Fin b) = (if b = 0 then NaN else if 0 < b then NInf else PInf)"
| "fl_mul PInf PInf = PInf"
| "fl_mul NInf NInf = PInf"
| "fl_mul PInf NInf = NInf"
| "fl_mul NInf PInf = NInf"

fun fl_div :: "fl \<Rightarrow> fl \<Rightarrow> fl" where
  "fl_div NaN y = NaN"
| "fl_div x NaN = NaN"
| "fl_div (Fin a) (Fin b) =
     (if b = 0 then (if a = 0 then NaN else if 0 < a then PInf else NInf)
      else Fin (a / b))"
| "fl_div (Fin a) PInf = Fin 0"
| "fl_div (Fin a) NInf = Fin 0"
| "fl_div PInf (Fin b) = (if 0 \<le> b then PInf else NInf)"
| "fl_div NInf (Fin b) = (if 0 \<le> b then NInf else PInf)"
| "fl_div PInf PInf = NaN"
| "fl_div NInf NInf = NaN"
| "fl_div PInf NInf = NaN"
| "fl_div NInf PInf = NaN"

text \<open>The comparison \<open>x < y\<close>: false as soon as one side is a NaN.\<close>

fun fl_less :: "fl \<Rightarrow> fl \<Rightarrow> bool" where
  "fl_less NaN y = False"
| "fl_less x NaN = False"
| "fl_less (Fin a) (Fin b) = (a < b)"
| "fl_less (Fin a) PInf = True"
| "fl_less (Fin a) NInf = False"
| "fl_less PInf y = False"
| "fl_less NInf (Fin b) = True"
| "fl_less NInf PInf = True"
| "fl_less NInf NInf = False"

fun is_finite :: "fl \<Rightarrow> bool" where
  "is_finite (Fin a) = True"
| "is_finite PInf = False"
| "is_finite NInf = False"
| "is_finite NaN = False"

section \<open>Errors and arrays\<close>

datatype error = ValueError string

text \<open>
  A position is a \<open>(3,)\<close> array. The grid is the list of its points, in the order of the
  broadcast of its three components, so that an array over the grid is a list with one
  entry per grid point.
\<close>

type_synonym vec3 = "real \<times> real \<times> real"

text \<open>
  \<open>point_image_sources\<close> starts its accumulator as the Python integer \<open>0\<close> and turns it
  into an array at the first \<open>p += ...\<close>; both shapes of result are values of \<open>field\<close>.
\<close>

datatype field = Scalar fl | Array "fl list"

section \<open>numpy.interp\<close>

text \<open>
  \<open>np.interp(x, xp, fp, left, right)\<close> as numpy's \<open>arr_interp\<close> computes it. The index
  search is written in its linear form, \<open>for (i = 1; i < len && key >= arr[i]; ++i);
  return i - 1\<close>, which numpy uses on short arrays; on an increasing \<open>xp\<close> its bisection
  returns the same index.
\<close>

definition binary_search_with_guess :: "real \<Rightarrow> real list \<Rightarrow> int" where
  "binary_search_with_guess key arr =
     (if last arr < key then int (length arr)
      else if key < hd arr then - 1
      else int (length (takeWhile (\<lambda>a. a \<le> key) (tl arr))))"

definition interp_at :: "fl \<Rightarrow> real list \<Rightarrow> real list \<Rightarrow> real \<Rightarrow> real \<Rightarrow> fl" where
  "interp_at x_val xp fp lval rval =
     (if length xp = 1 then
        (if fl_less x_val (Fin (xp ! 0)) then Fin lval
         else if fl_less (Fin (xp ! 0)) x_val then Fin rval
         else Fin (fp ! 0))
      else
        (case x_val of
           NaN \<Rightarrow> NaN
         | PInf \<Rightarrow> Fin rval
         | NInf \<Rightarrow> Fin lval
         | Fin v \<Rightarrow>
             (let j = binary_search_with_guess v xp in
              if j = - 1 then Fin lval
              else if j = int (length xp) then Fin rval
              else if j = int (length xp) - 1 then Fin (fp ! nat j)
              else if xp ! nat j = v then Fin (fp ! nat j)
              else
                (let slope = (fp ! (nat j + 1) - fp ! nat j) / (xp ! (nat j + 1) - xp ! nat j)
                 in Fin (slope * (v - xp ! nat j) + fp ! nat j)))))"

definition np_interp ::
  "fl list \<Rightarrow> real list \<Rightarrow> real list \<Rightarrow> real \<Rightarrow> real \<Rightarrow> error + fl list" where
  "np_interp x xp fp left right =
     (if length xp = 0 then Inl (ValueError ''array of sample points is empty'')
      else if length fp \<noteq> length xp then
        Inl (ValueError ''fp and xp are not of the same length.'')
      else Inr (map (\<lambda>x_val. interp_at x_val xp fp left right) x))"

section \<open>The excitation signal\<close>

datatype signal = Signal "real list" real | DelayedSignal "real list" real real

text \<open>
  Modelled from the spec: \<open>util.as_delayed_signal\<close> is not among the sources. It
  "normalizes either a (samples, sample_rate) pair or a richer signal value into
  (samples, sample_rate, causal_offset); offset defaults to 0 when not otherwise
  specified".
\<close>

fun as_delayed_signal :: "signal \<Rightarrow> real list \<times> real \<times> real" where
  "as_delayed_signal (Signal data samplerate) = (data, samplerate, 0)"
| "as_delayed_signal (DelayedSignal data samplerate time) = (data, samplerate, time)"

section \<open>The point source\<close>

text \<open>\<open>np.linalg.norm(grid - xs)\<close> at one grid point.\<close>

fun linalg_norm_diff :: "vec3 \<Rightarrow> vec3 \<Rightarrow> real" where
  "linalg_norm_diff (gx, gy, gz) (x, y, z) =
     sqrt ((gx - x) * (gx - x) + (gy - y) * (gy - y) + (gz - z) * (gz - z))"

text \<open>
  \<open>defs_c\<close> is the module constant \<open>defs.c\<close>, which is not among the sources: it is a
  parameter. The time axis \<open>np.arange(len(data)) / samplerate\<close> is modelled for a
  sample rate other than zero.
\<close>

definition point ::
  "real \<Rightarrow> vec3 \<Rightarrow> signal \<Rightarrow> real \<Rightarrow> vec3 list \<Rightarrow> real option \<Rightarrow> error + fl list" where
  "point defs_c xs signal observation_time grid c =
     (case as_delayed_signal signal of (data, samplerate, signal_offset) \<Rightarrow>
        (let c = (case c of None \<Rightarrow> defs_c | Some v \<Rightarrow> v);
             r = map (\<lambda>g. linalg_norm_diff g xs) grid;
             weights = map (\<lambda>r. fl_div (Fin 1) (Fin (4 * pi * r))) r;
             delays = map (\<lambda>r. fl_div (Fin r) (Fin c)) r;
             base_time = observation_time - signal_offset
         in case np_interp (map (\<lambda>d. fl_sub (Fin base_time) d) delays)
                   (map (\<lambda>i. real i / samplerate) [0..<length data]) data 0 0 of
              Inl e \<Rightarrow> Inl e
            | Inr s \<Rightarrow> Inr (map2 fl_mul weights s)))"

section \<open>The image sources\<close>

text \<open>
  \<open>coeffs**order\<close> on one row of \<open>order\<close>, with numpy's broadcasting of a \<open>(K,)\<close> array
  against a row of \<open>J\<close> entries.
\<close>

definition power_row :: "real list \<Rightarrow> nat list \<Rightarrow> error + real list" where
  "power_row coeffs row =
     (if length coeffs = length row then Inr (map2 (\<lambda>a n. a ^ n) coeffs row)
      else if length coeffs = 1 then Inr (map (\<lambda>n. hd coeffs ^ n) row)
      else if length row = 1 then Inr (map (\<lambda>a. a ^ hd row) coeffs)
      else Inl (ValueError ''operands could not be broadcast together''))"

text \<open>\<open>np.prod(coeffs**order, axis=1)\<close>: the product along each row.\<close>

fun source_strengths :: "real list \<Rightarrow> nat list list \<Rightarrow> error + real list" where
  "source_strengths coeffs [] = Inr []"
| "source_strengths coeffs (row # rows) =
     (case power_row coeffs row of
        Inl e \<Rightarrow> Inl e
      | Inr powers \<Rightarrow>
          (case source_strengths coeffs rows of
             Inl e \<Rightarrow> Inl e
           | Inr rest \<Rightarrow> Inr (foldl (\<lambda>a b. a * b) 1 powers # rest)))"

text \<open>\<open>strength * point(...)\<close> and \<open>p += ...\<close>.\<close>

definition scale :: "real \<Rightarrow> fl list \<Rightarrow> fl list" where
  "scale strength a = map (fl_mul (Fin strength)) a"

fun iadd :: "field \<Rightarrow> fl list \<Rightarrow> field" where
  "iadd (Scalar s) a = Array (map (fl_add s) a)"
| "iadd (Array p) a = Array (map2 fl_add p a)"

text \<open>The loop over \<open>zip(positions, source_strengths)\<close>, from the accumulator \<open>p\<close>.\<close>

fun image_loop ::
  "real \<Rightarrow> signal \<Rightarrow> real \<Rightarrow> vec3 list \<Rightarrow> real option \<Rightarrow> field \<Rightarrow> (vec3 \<times> real) list
     \<Rightarrow> error + field" where
  "image_loop defs_c signal observation_time grid c p [] = Inr p"
| "image_loop defs_c signal observation_time grid c p ((position, strength) # rest) =
     (if strength \<noteq> 0 then
        (case point defs_c position signal observation_time grid c of
           Inl e \<Rightarrow> Inl e
         | Inr g \<Rightarrow>
             image_loop defs_c signal observation_time grid c (iadd p (scale strength g)) rest)
      else image_loop defs_c signal observation_time grid c p rest)"

text \<open>
  \<open>util.image_sources_for_box\<close> is not among the sources: it is the parameter
  \<open>image_sources_for_box\<close>, which returns the positions of the images and, row by row,
  their reflection orders.
\<close>

definition point_image_sources ::
  "real \<Rightarrow> (vec3 \<Rightarrow> vec3 \<Rightarrow> int \<Rightarrow> vec3 list \<times> nat list list) \<Rightarrow> vec3 \<Rightarrow> signal \<Rightarrow> real
     \<Rightarrow> vec3 list \<Rightarrow> vec3 \<Rightarrow> int \<Rightarrow> real list option \<Rightarrow> real option \<Rightarrow> error + field" where
  "point_image_sources defs_c image_sources_for_box x0 signal observation_time grid L
       max_order coeffs c =
     (let coeffs = (case coeffs of None \<Rightarrow> replicate 6 1 | Some cs \<Rightarrow> cs) in
      case image_sources_for_box x0 L max_order of (positions, order) \<Rightarrow>
        (case source_strengths coeffs order of
           Inl e \<Rightarrow> Inl e
         | Inr strengths \<Rightarrow>
             image_loop defs_c signal observation_time grid c (Scalar (Fin 0))
               (zip positions strengths)))"

section \<open>What the specification compares the code with\<close>

text \<open>
  The excitation signal as a function of time, in the specification's words: sample \<open>k\<close>
  sits at time \<open>k / samplerate\<close>, the value between two samples is their linear
  interpolation, and the value before the first sample or after the last one is zero.
\<close>

definition interpolated_signal :: "real list \<Rightarrow> real \<Rightarrow> real \<Rightarrow> real" where
  "interpolated_signal data samplerate t =
     (if t < 0 \<or> real (length data - 1) / samplerate < t then 0
      else
        (let k = nat \<lfloor>t * samplerate\<rfloor>; a = t * samplerate - real k in
         if k + 1 < length data then (1 - a) * data ! k + a * data ! (k + 1)
         else data ! k))"

text \<open>
  The plain sum of \<open>point\<close> over a list of positions, with no weights:
  \<open>sum(point(position, ...) for position in positions)\<close>.
\<close>

fun direct_sum ::
  "real \<Rightarrow> signal \<Rightarrow> real \<Rightarrow> vec3 list \<Rightarrow> real option \<Rightarrow> field \<Rightarrow> vec3 list
     \<Rightarrow> error + field" where
  "direct_sum defs_c signal observation_time grid c p [] = Inr p"
| "direct_sum defs_c signal observation_time grid c p (position # rest) =
     (case point defs_c position signal observation_time grid c of
        Inl e \<Rightarrow> Inl e
      | Inr g \<Rightarrow> direct_sum defs_c signal observation_time grid c (iadd p g) rest)"

text \<open>
  The naive superposition: the loop of \<open>point_image_sources\<close> without the test
  \<open>strength != 0\<close>, so that every image is evaluated and weighted by its strength.
\<close>

fun naive_loop ::
  "real \<Rightarrow> signal \<Rightarrow> real \<Rightarrow> vec3 list \<Rightarrow> real option \<Rightarrow> field \<Rightarrow> (vec3 \<times> real) list
     \<Rightarrow> error + field" where
  "naive_loop defs_c signal observation_time grid c p [] = Inr p"
| "naive_loop defs_c signal observation_time grid c p ((position, strength) # rest) =
     (case point defs_c position signal observation_time grid c of
        Inl e \<Rightarrow> Inl e
      | Inr g \<Rightarrow>
          naive_loop defs_c signal observation_time grid c (iadd p (scale strength g)) rest)"

definition naive_image_sources ::
  "real \<Rightarrow> (vec3 \<Rightarrow> vec3 \<Rightarrow> int \<Rightarrow> vec3 list \<times> nat list list) \<Rightarrow> vec3 \<Rightarrow> signal \<Rightarrow> real
     \<Rightarrow> vec3 list \<Rightarrow> vec3 \<Rightarrow> int \<Rightarrow> real list option \<Rightarrow> real option \<Rightarrow> error + field" where
  "naive_image_sources defs_c image_sources_for_box x0 signal observation_time grid L
       max_order coeffs c =
     (let coeffs = (case coeffs of None \<Rightarrow> replicate 6 1 | Some cs \<Rightarrow> cs) in
      case image_sources_for_box x0 L max_order of (positions, order) \<Rightarrow>
        (case source_strengths coeffs order of
           Inl e \<Rightarrow> Inl e
         | Inr strengths \<Rightarrow>
             naive_loop defs_c signal observation_time grid c (Scalar (Fin 0))
               (zip positions strengths)))"

text \<open>
  Modelled from the spec: \<open>util.image_sources_for_box\<close> is not among the sources. With
  \<open>max_order = 0\<close> there are "no images beyond the source itself": the enumeration
  returns the real source alone, with no reflection counted at any of the six walls.
\<close>

definition source_alone ::
  "(vec3 \<Rightarrow> vec3 \<Rightarrow> int \<Rightarrow> vec3 list \<times> nat list list) \<Rightarrow> vec3 \<Rightarrow> vec3 \<Rightarrow> bool" where
  "source_alone image_sources_for_box x0 L \<longleftrightarrow>
     image_sources_for_box x0 L 0 = ([x0], [replicate 6 0])"

text \<open>
  The value that \<open>point\<close> computes at the grid point \<open>g\<close>:
  \<open>weights * np.interp(base_time - delays, ...)\<close> at one index.
\<close>

definition point_value :: "real \<Rightarrow> vec3 \<Rightarrow> real list \<Rightarrow> real \<Rightarrow> real \<Rightarrow> real \<Rightarrow> vec3 \<Rightarrow> fl" where
  "point_value c xs data samplerate signal_offset observation_time g =
     fl_mul (fl_div (Fin 1) (Fin (4 * pi * linalg_norm_diff g xs)))
       (interp_at (fl_sub (Fin (observation_time - signal_offset))
                     (fl_div (Fin (linalg_norm_diff g xs)) (Fin c)))
          (map (\<lambda>i. real i / samplerate) [0..<length data]) data 0 0)"

section \<open>Arithmetic with the special values\<close>

lemma fl_add_zero_left: "fl_add (Fin 0) v = v"
  by (cases v) simp_all

lemma fl_add_zero_right: "fl_add v (Fin 0) = v"
  by (cases v) simp_all

lemma fl_mul_one_left: "fl_mul (Fin 1) v = v"
  by (cases v) simp_all

lemma map_fl_add_zero: "map (fl_add (Fin 0)) g = g"
  by (induction g) (simp_all add: fl_add_zero_left)

lemma scale_one: "scale 1 g = g"
  by (simp add: scale_def fl_mul_one_left cong: map_cong)

lemma fl_mul_PInf_not_finite: "\<not> is_finite (fl_mul PInf v)"
  by (cases v) simp_all

lemma fl_mul_Fin_finite: "is_finite v \<Longrightarrow> is_finite (fl_mul (Fin w) v)"
  by (cases v) simp_all

lemma weight_finite: "r \<noteq> 0 \<Longrightarrow> fl_div (Fin 1) (Fin (4 * pi * r)) = Fin (1 / (4 * pi * r))"
  by simp

lemma weight_infinite: "fl_div (Fin 1) (Fin 0) = PInf"
  by simp

lemma retarded_not_nan: "r \<noteq> 0 \<Longrightarrow> fl_sub (Fin b) (fl_div (Fin r) (Fin c)) \<noteq> NaN"
  by (simp add: fl_sub_def)

lemma map2_map_same: "map2 f (map g xs) (map h xs) = map (\<lambda>x. f (g x) (h x)) xs"
  by (induction xs) simp_all

lemma map2_replicate_left: "length g = n \<Longrightarrow> map2 f (replicate n s) g = map (f s) g"
  by (induction g arbitrary: n) auto

lemma map2_add_zeros:
  "length xs = n \<Longrightarrow> map2 fl_add xs (replicate n (Fin 0)) = xs"
  by (induction xs arbitrary: n) (auto simp: fl_add_zero_right)

lemma scale_zero_finite:
  "\<forall>v \<in> set g. is_finite v \<Longrightarrow> scale 0 g = replicate (length g) (Fin 0)"
proof (induction g)
  case Nil
  then show ?case by (simp add: scale_def)
next
  case (Cons v g)
  then obtain a where "v = Fin a" by (cases v) auto
  with Cons show ?case by (simp add: scale_def)
qed

section \<open>The strengths of the images\<close>

lemma foldl_mult_prod_list: "foldl (\<lambda>a b. a * b) (a::real) xs = a * prod_list xs"
  by (induction xs arbitrary: a) (simp_all add: mult.assoc)

lemma prod_list_map2_pow:
  "length cs = length row \<Longrightarrow>
     prod_list (map2 (\<lambda>a n. a ^ n) cs row) = (\<Prod>k<length cs. (cs ! k :: real) ^ (row ! k))"
proof (induction cs row rule: list_induct2)
  case Nil
  then show ?case by simp
next
  case (Cons c cs n row)
  have "(\<Prod>k<Suc (length cs). (c # cs) ! k ^ (n # row) ! k)
          = c ^ n * (\<Prod>k<length cs. cs ! k ^ row ! k)"
    by (subst prod.lessThan_Suc_shift) simp
  with Cons show ?case by simp
qed

lemma source_strengths_rows:
  "\<forall>row \<in> set order. length row = length coeffs \<Longrightarrow>
     source_strengths coeffs order =
       Inr (map (\<lambda>row. \<Prod>k<length coeffs. coeffs ! k ^ (row ! k)) order)"
proof (induction order)
  case Nil
  then show ?case by simp
next
  case (Cons row order)
  then have len: "length coeffs = length row" by simp
  have "power_row coeffs row = Inr (map2 (\<lambda>a n. a ^ n) coeffs row)"
    using len by (simp add: power_row_def)
  moreover have "source_strengths coeffs order =
       Inr (map (\<lambda>row. \<Prod>k<length coeffs. coeffs ! k ^ (row ! k)) order)"
    using Cons by simp
  ultimately show ?case
    using len by (simp add: foldl_mult_prod_list prod_list_map2_pow)
qed

lemma source_strengths_nth:
  "source_strengths coeffs order = Inr ss \<Longrightarrow> i < length order \<Longrightarrow>
     \<exists>powers. power_row coeffs (order ! i) = Inr powers \<and> ss ! i = prod_list powers"
proof (induction order arbitrary: ss i)
  case Nil
  then show ?case by simp
next
  case (Cons row order)
  from Cons.prems(1) obtain powers rest where
    p: "power_row coeffs row = Inr powers" "source_strengths coeffs order = Inr rest"
       "ss = foldl (\<lambda>a b. a * b) 1 powers # rest"
    by (auto split: sum.splits)
  show ?case
  proof (cases i)
    case 0
    with p show ?thesis by (simp add: foldl_mult_prod_list)
  next
    case (Suc j)
    with Cons.prems(2) have "j < length order" by simp
    from Cons.IH [OF p(2) this] show ?thesis using Suc p(3) by simp
  qed
qed

lemma source_strengths_zero_row:
  "length coeffs = n \<Longrightarrow> source_strengths coeffs [replicate n 0] = Inr [1]"
  using source_strengths_rows [of "[replicate n 0]" coeffs] by simp

lemma source_strengths_ones:
  assumes "\<forall>row \<in> set order. length row = 6"
  shows "source_strengths (replicate 6 1) order = Inr (replicate (length order) 1)"
proof -
  have "source_strengths (replicate 6 1) order
          = Inr (map (\<lambda>row. \<Prod>k<length (replicate 6 (1::real)). replicate 6 1 ! k ^ (row ! k)) order)"
    by (rule source_strengths_rows) (use assms in simp)
  also have "map (\<lambda>row. \<Prod>k<length (replicate 6 (1::real)). replicate 6 1 ! k ^ (row ! k)) order
          = replicate (length order) (1::real)"
    by (simp add: map_replicate_const [symmetric] cong: map_cong)
  finally show ?thesis .
qed

lemma strength_ignores_unreflected_wall:
  assumes "w < length coeffs" and "row ! w = 0"
  shows "(\<Prod>k<length coeffs. (coeffs[w := a]) ! k ^ (row ! k))
           = (\<Prod>k<length coeffs. (coeffs ! k :: real) ^ (row ! k))"
proof (rule prod.cong)
  fix k assume "k \<in> {..<length coeffs}"
  show "(coeffs[w := a]) ! k ^ (row ! k) = coeffs ! k ^ (row ! k)"
  proof (cases "k = w")
    case True
    then show ?thesis using assms by simp
  next
    case False
    then show ?thesis by simp
  qed
qed simp

lemma zero_wall_zero_strength:
  assumes "source_strengths coeffs order = Inr ss" and "i < length order"
    and "length (order ! i) = length coeffs" and "w < length coeffs"
    and "coeffs ! w = 0" and "0 < order ! i ! w"
  shows "ss ! i = 0"
proof -
  from source_strengths_nth [OF assms(1,2)] obtain powers where
    p: "power_row coeffs (order ! i) = Inr powers" "ss ! i = prod_list powers"
    by blast
  from p(1) assms(3) have "powers = map2 (\<lambda>a n. a ^ n) coeffs (order ! i)"
    by (simp add: power_row_def)
  then have "prod_list powers = (\<Prod>k<length coeffs. coeffs ! k ^ (order ! i ! k))"
    using assms(3) by (simp add: prod_list_map2_pow)
  also have "\<dots> = 0"
    using assms(4,5,6) by (auto intro!: bexI [of _ w])
  finally show ?thesis using p(2) by simp
qed

text \<open>
  C6. When every row of \<open>order\<close> has one entry per coefficient, \<open>np.prod(coeffs**order,
  axis=1)\<close> succeeds and gives each image the product, over the walls, of the wall's
  coefficient raised to the image's reflection order at that wall.
\<close>

theorem strength_is_product:
  assumes "\<forall>row \<in> set order. length row = length coeffs"
  shows "\<exists>strengths. source_strengths coeffs order = Inr strengths
           \<and> length strengths = length order
           \<and> (\<forall>i<length order.
                 strengths ! i = (\<Prod>k<length coeffs. coeffs ! k ^ (order ! i ! k)))"
  using source_strengths_rows [OF assms] by simp

text \<open>
  With the coefficients \<open>1/2, 1, 1, 1, 1, 1/3\<close>, an image reflected twice at the first
  wall and once at the last has strength \<open>1/12\<close>.
\<close>

theorem strength_is_product_witness:
  "\<exists>strengths.
     source_strengths [1 / 2, 1, 1, 1, 1, 1 / 3] [[0, 0, 0, 0, 0, 0], [2, 0, 0, 0, 0, 1]]
       = Inr strengths
     \<and> length strengths = 2 \<and> strengths ! 1 = 1 / 12"
proof -
  let ?order = "[[0, 0, 0, 0, 0, 0], [2, 0, 0, 0, 0, 1 :: nat]]"
  let ?coeffs = "[1 / 2, 1, 1, 1, 1, 1 / 3 :: real]"
  have rows: "\<forall>row \<in> set ?order. length row = length ?coeffs"
    by simp
  from strength_is_product [OF rows] obtain strengths where
    s: "source_strengths ?coeffs ?order = Inr strengths" "length strengths = length ?order"
       "\<forall>i<length ?order. strengths ! i = (\<Prod>k<length ?coeffs. ?coeffs ! k ^ (?order ! i ! k))"
    by blast
  have six: "{..<6::nat} = {0, 1, 2, 3, 4, 5}" by auto
  from s(3) have "strengths ! 1 = (\<Prod>k<length ?coeffs. ?coeffs ! k ^ (?order ! 1 ! k))"
    by simp
  then have "strengths ! 1 = 1 / 12"
    by (simp add: six power2_eq_square)
  with s(1,2) show ?thesis by simp
qed

section \<open>The interpolation of the signal\<close>

lemma time_axis_hd: "0 < n \<Longrightarrow> hd (map (\<lambda>i. real i / fs) [0..<n]) = 0"
  by (simp add: hd_map hd_upt upt_conv_Cons)

lemma time_axis_last: "0 < n \<Longrightarrow> last (map (\<lambda>i. real i / fs) [0..<n]) = real (n - 1) / fs"
  by (cases n) (simp_all add: last_map)

lemma interp_at_finite: "x \<noteq> NaN \<Longrightarrow> is_finite (interp_at x xp fp l r)"
  by (cases x) (simp_all add: interp_at_def Let_def)

lemma interp_at_outside:
  assumes "0 < n" and "0 < fs"
    and "fl_less x (Fin 0) \<or> fl_less (Fin (real (n - 1) / fs)) x"
  shows "interp_at x (map (\<lambda>i. real i / fs) [0..<n]) fp 0 0 = Fin 0"
proof (cases "n = 1")
  case True
  then show ?thesis using assms(3) by (auto simp: interp_at_def)
next
  case False
  let ?xp = "map (\<lambda>i. real i / fs) [0..<n]"
  have len: "length ?xp \<noteq> 1" using False by simp
  have last_nonneg: "0 \<le> real (n - 1) / fs" using assms(2) by simp
  show ?thesis
  proof (cases x)
    case (Fin v)
    have hd: "hd ?xp = 0" and last: "last ?xp = real (n - 1) / fs"
      using assms(1) by (simp_all only: time_axis_hd time_axis_last)
    from assms(3) Fin consider "v < 0" | "real (n - 1) / fs < v" by auto
    then have "binary_search_with_guess v ?xp = - 1 \<or> binary_search_with_guess v ?xp = int (length ?xp)"
    proof cases
      case 1
      then have "\<not> last ?xp < v" using last last_nonneg by linarith
      with 1 show ?thesis unfolding binary_search_with_guess_def hd by simp
    next
      case 2
      then show ?thesis unfolding binary_search_with_guess_def last by simp
    qed
    then show ?thesis
      using len Fin unfolding interp_at_def Let_def by auto
  next
    case PInf
    then show ?thesis using len by (simp add: interp_at_def)
  next
    case NInf
    then show ?thesis using len by (simp add: interp_at_def)
  next
    case NaN
    then show ?thesis using assms(3) by simp
  qed
qed

lemma takeWhile_le_upt:
  assumes "m \<le> Suc k" and "k < n"
  shows "takeWhile (\<lambda>i. i \<le> k) [m..<n] = [m..<Suc k]"
proof -
  have split: "[m..<n] = [m..<Suc k] @ [Suc k..<n]"
    using assms by (metis Suc_leI le_iff_add upt_add_eq_append)
  have "takeWhile (\<lambda>i. i \<le> k) [Suc k..<n] = []"
    by (cases "Suc k < n") (simp_all add: upt_conv_Cons)
  moreover have "takeWhile (\<lambda>i. i \<le> k) ([m..<Suc k] @ [Suc k..<n])
                   = [m..<Suc k] @ takeWhile (\<lambda>i. i \<le> k) [Suc k..<n]"
    by (rule takeWhile_append2) auto
  ultimately show ?thesis
    unfolding split by (simp del: upt_Suc)
qed

lemma real_le_floor_iff:
  assumes "0 \<le> y"
  shows "real i \<le> y \<longleftrightarrow> i \<le> nat \<lfloor>y\<rfloor>"
proof -
  have "real i \<le> y \<longleftrightarrow> int i \<le> \<lfloor>y\<rfloor>"
    by (simp add: le_floor_iff)
  also have "\<dots> \<longleftrightarrow> i \<le> nat \<lfloor>y\<rfloor>"
    using assms by (simp add: nat_le_iff [symmetric] le_nat_iff)
  finally show ?thesis .
qed

lemma search_index:
  assumes "0 < fs" and "0 \<le> v" and "v \<le> real (n - 1) / fs" and "0 < n"
  shows "binary_search_with_guess v (map (\<lambda>i. real i / fs) [0..<n]) = int (nat \<lfloor>v * fs\<rfloor>)"
    and "nat \<lfloor>v * fs\<rfloor> \<le> n - 1"
proof -
  let ?xp = "map (\<lambda>i. real i / fs) [0..<n]"
  let ?k = "nat \<lfloor>v * fs\<rfloor>"
  have y: "0 \<le> v * fs" using assms(1,2) by simp
  have "v * fs \<le> real (n - 1)"
    using assms(1,3) by (simp add: pos_le_divide_eq)
  then have "\<lfloor>v * fs\<rfloor> \<le> int (n - 1)" by (simp add: floor_le_iff)
  then show k: "?k \<le> n - 1" by simp
  have le: "(real i / fs \<le> v) = (i \<le> ?k)" for i
    using assms(1) real_le_floor_iff [OF y, of i] by (simp add: pos_divide_le_eq)
  have tl: "tl ?xp = map (\<lambda>i. real i / fs) [1..<n]"
    using assms(4) by (simp add: map_tl [symmetric] upt_conv_Cons del: upt_Suc)
  have "takeWhile (\<lambda>a. a \<le> v) (tl ?xp) = map (\<lambda>i. real i / fs) (takeWhile (\<lambda>i. i \<le> ?k) [1..<n])"
    unfolding tl by (simp add: takeWhile_map comp_def le)
  also have "takeWhile (\<lambda>i. i \<le> ?k) [1..<n] = [1..<Suc ?k]"
    using k assms(4) by (intro takeWhile_le_upt) simp_all
  finally have "length (takeWhile (\<lambda>a. a \<le> v) (tl ?xp)) = ?k" by (simp del: upt_Suc)
  moreover have "\<not> last ?xp < v"
    unfolding time_axis_last [OF assms(4)] using assms(3) by simp
  moreover have "\<not> v < hd ?xp"
    unfolding time_axis_hd [OF assms(4)] using assms(2) by simp
  ultimately show "binary_search_with_guess v ?xp = int ?k"
    by (simp only: binary_search_with_guess_def if_False)
qed

lemma interp_at_inside:
  assumes "length xp \<noteq> 1" and "binary_search_with_guess v xp = int k" and "k < length xp"
  shows "interp_at (Fin v) xp fp l r
           = (if k = length xp - 1 then Fin (fp ! k)
              else if xp ! k = v then Fin (fp ! k)
              else Fin ((fp ! (k + 1) - fp ! k) / (xp ! (k + 1) - xp ! k) * (v - xp ! k)
                         + fp ! k))"
proof -
  have "int k = int (length xp) - 1 \<longleftrightarrow> k = length xp - 1"
    using assms(3) by (cases "length xp") auto
  moreover have "nat (int (length xp) - 1) = length xp - Suc 0"
    by arith
  ultimately show ?thesis
    using assms by (simp add: interp_at_def Let_def)
qed

lemma interp_at_is_interpolation:
  assumes "0 < fs" and "data \<noteq> []"
  shows "interp_at (Fin v) (map (\<lambda>i. real i / fs) [0..<length data]) data 0 0
           = Fin (interpolated_signal data fs v)"
proof -
  let ?n = "length data"
  let ?xp = "map (\<lambda>i. real i / fs) [0..<?n]"
  have n: "0 < ?n" using assms(2) by simp
  consider "v < 0 \<or> real (?n - 1) / fs < v" | "0 \<le> v" "v \<le> real (?n - 1) / fs"
    by linarith
  then show ?thesis
  proof cases
    case 1
    then have "fl_less (Fin v) (Fin 0) \<or> fl_less (Fin (real (?n - 1) / fs)) (Fin v)"
      by simp
    from interp_at_outside [OF n assms(1) this] 1 show ?thesis
      by (simp add: interpolated_signal_def)
  next
    case 2
    let ?k = "nat \<lfloor>v * fs\<rfloor>"
    have inside: "\<not> (v < 0 \<or> real (?n - 1) / fs < v)" using 2 by simp
    show ?thesis
    proof (cases "?n = 1")
      case True
      with 2 have "v = 0" by simp
      then show ?thesis
        using True by (simp add: interp_at_def interpolated_signal_def)
    next
      case False
      have j: "binary_search_with_guess v ?xp = int ?k" and k: "?k \<le> ?n - 1"
        using search_index [OF assms(1) 2 n] by simp_all
      have len: "length ?xp \<noteq> 1" using False by simp
      have y: "0 \<le> v * fs" using assms(1) 2(1) by simp
      have kn: "?k < length ?xp" using k assms(2) by (cases data) simp_all
      note computed = interp_at_inside [OF len j kn, of data 0 0]
      show ?thesis
      proof (cases "?k = ?n - 1")
        case True
        then have "\<not> ?k + 1 < ?n" by simp
        then show ?thesis
          unfolding computed interpolated_signal_def Let_def using True inside by simp
      next
        case False
        with k have k1: "?k + 1 < ?n" by simp
        have xk: "?xp ! ?k = real ?k / fs" and xk1: "?xp ! (?k + 1) = (real ?k + 1) / fs"
          using k1 by (simp_all add: add.commute)
        have slope: "(data ! (?k + 1) - data ! ?k) / (?xp ! (?k + 1) - ?xp ! ?k)
                       = (data ! (?k + 1) - data ! ?k) * fs"
          unfolding xk xk1 using assms(1) by (simp add: field_simps)
        have algebra: "(data ! (?k + 1) - data ! ?k) * fs * (v - real ?k / fs) + data ! ?k
                = (1 - (v * fs - real ?k)) * data ! ?k + (v * fs - real ?k) * data ! (?k + 1)"
          using assms(1) by (simp add: field_simps)
        have at_sample: "(1 - (v * fs - real ?k)) * data ! ?k + (v * fs - real ?k) * data ! (?k + 1)
                = data ! ?k" if "real ?k / fs = v"
        proof -
          from that assms(1) have "v * fs = real ?k" by (simp add: field_simps)
          then show ?thesis by simp
        qed
        have stated: "interpolated_signal data fs v
                = (1 - (v * fs - real ?k)) * data ! ?k + (v * fs - real ?k) * data ! (?k + 1)"
          unfolding interpolated_signal_def Let_def using inside k1 by simp
        have "interp_at (Fin v) ?xp data 0 0
                = (if real ?k / fs = v then Fin (data ! ?k)
                   else Fin ((data ! (?k + 1) - data ! ?k) * fs * (v - real ?k / fs) + data ! ?k))"
          unfolding computed slope unfolding xk using False by simp
        then show ?thesis
          unfolding stated using algebra at_sample by simp
      qed
    qed
  qed
qed

section \<open>The field of a point source\<close>

lemma linalg_norm_diff_zero_iff: "linalg_norm_diff g xs = 0 \<longleftrightarrow> g = xs"
proof -
  obtain gx gy gz where g: "g = (gx, gy, gz)" by (cases g) auto
  obtain x y z where xs: "xs = (x, y, z)" by (cases xs) auto
  have "(gx - x) * (gx - x) + (gy - y) * (gy - y) + (gz - z) * (gz - z) = 0
          \<longleftrightarrow> gx = x \<and> gy = y \<and> gz = z"
  proof
    assume h: "(gx - x) * (gx - x) + (gy - y) * (gy - y) + (gz - z) * (gz - z) = 0"
    have "0 \<le> (gx - x) * (gx - x)" "0 \<le> (gy - y) * (gy - y)" "0 \<le> (gz - z) * (gz - z)"
      by simp_all
    with h have "(gx - x) * (gx - x) = 0" "(gy - y) * (gy - y) = 0" "(gz - z) * (gz - z) = 0"
      by linarith+
    then show "gx = x \<and> gy = y \<and> gz = z" by simp
  qed simp
  then show ?thesis by (simp add: g xs)
qed

lemma point_nonempty:
  assumes "as_delayed_signal signal = (data, samplerate, signal_offset)" and "data \<noteq> []"
  shows "point defs_c xs signal observation_time grid c
           = Inr (map (point_value (case c of None \<Rightarrow> defs_c | Some v \<Rightarrow> v) xs data samplerate
                         signal_offset observation_time) grid)"
proof -
  let ?c = "case c of None \<Rightarrow> defs_c | Some v \<Rightarrow> v"
  let ?xp = "map (\<lambda>i. real i / samplerate) [0..<length data]"
  have interp: "np_interp x ?xp data 0 0 = Inr (map (\<lambda>x_val. interp_at x_val ?xp data 0 0) x)"
    for x
    using assms(2) by (simp add: np_interp_def)
  have "map2 fl_mul
          (map (\<lambda>r. fl_div (Fin 1) (Fin (4 * pi * r))) (map (\<lambda>g. linalg_norm_diff g xs) grid))
          (map (\<lambda>x_val. interp_at x_val ?xp data 0 0)
             (map (\<lambda>d. fl_sub (Fin (observation_time - signal_offset)) d)
                (map (\<lambda>r. fl_div (Fin r) (Fin ?c)) (map (\<lambda>g. linalg_norm_diff g xs) grid))))
        = map (point_value ?c xs data samplerate signal_offset observation_time) grid"
    unfolding map_map comp_def map2_map_same point_value_def ..
  then show ?thesis
    unfolding point_def Let_def assms(1) prod.case interp sum.case by simp
qed

lemma point_empty:
  assumes "as_delayed_signal signal = (data, samplerate, signal_offset)" and "data = []"
  shows "point defs_c xs signal observation_time grid c
           = Inl (ValueError ''array of sample points is empty'')"
  using assms by (simp add: point_def np_interp_def Let_def)

lemma point_value_finite_iff:
  "is_finite (point_value c xs data samplerate signal_offset observation_time g) \<longleftrightarrow> g \<noteq> xs"
proof (cases "g = xs")
  case True
  then have "linalg_norm_diff g xs = 0" by (simp add: linalg_norm_diff_zero_iff)
  then show ?thesis
    using True by (simp add: point_value_def fl_mul_PInf_not_finite weight_infinite del: fl_div.simps)
next
  case False
  then have r: "linalg_norm_diff g xs \<noteq> 0" by (simp add: linalg_norm_diff_zero_iff)
  then show ?thesis
    using False
    by (simp add: point_value_def fl_mul_Fin_finite interp_at_finite retarded_not_nan
          weight_finite del: fl_div.simps)
qed

lemma point_returns:
  assumes "fst (as_delayed_signal signal) \<noteq> []"
  shows "\<exists>g. point defs_c xs signal observation_time grid c = Inr g \<and> length g = length grid
           \<and> (xs \<notin> set grid \<longrightarrow> (\<forall>v \<in> set g. is_finite v))"
proof -
  obtain data samplerate signal_offset
    where s: "as_delayed_signal signal = (data, samplerate, signal_offset)"
    by (cases "as_delayed_signal signal") auto
  with assms have "data \<noteq> []" by simp
  then show ?thesis
    by (auto simp: point_nonempty [OF s] point_value_finite_iff)
qed

text \<open>
  C1, amended. With at least one sample, a positive sample rate and a speed of sound
  other than zero, \<open>point\<close> returns, at every grid point at distance \<open>r > 0\<close> from the
  source, \<open>1 / (4 \<pi> r)\<close> times the signal interpolated at the retarded time
  \<open>observation_time - signal_offset - r / c\<close>; at \<open>r = 0\<close> the weight is the infinity
  that numpy computes for \<open>1 / 0\<close>.
\<close>

theorem point_is_weighted_interpolation:
  assumes "as_delayed_signal signal = (data, samplerate, signal_offset)"
    and "data \<noteq> []" and "0 < samplerate"
    and "speed = (case c of None \<Rightarrow> defs_c | Some v \<Rightarrow> v)" and "speed \<noteq> 0"
  shows "point defs_c xs signal observation_time grid c
           = Inr (map (\<lambda>g.
                    let r = linalg_norm_diff g xs;
                        s = interpolated_signal data samplerate
                              (observation_time - signal_offset - r / speed)
                    in if r = 0 then fl_mul PInf (Fin s) else Fin (1 / (4 * pi * r) * s))
                  grid)"
proof -
  have "point_value speed xs data samplerate signal_offset observation_time g
          = (let r = linalg_norm_diff g xs;
                 s = interpolated_signal data samplerate
                       (observation_time - signal_offset - r / speed)
             in if r = 0 then fl_mul PInf (Fin s) else Fin (1 / (4 * pi * r) * s))"
    for g
  proof -
    let ?r = "linalg_norm_diff g xs"
    have "fl_sub (Fin (observation_time - signal_offset)) (fl_div (Fin ?r) (Fin speed))
            = Fin (observation_time - signal_offset - ?r / speed)"
      using assms(5) by (simp add: fl_sub_def)
    then have "point_value speed xs data samplerate signal_offset observation_time g
            = fl_mul (fl_div (Fin 1) (Fin (4 * pi * ?r)))
                (Fin (interpolated_signal data samplerate
                        (observation_time - signal_offset - ?r / speed)))"
      unfolding point_value_def
      by (simp only: interp_at_is_interpolation [OF assms(3,2)])
    then show ?thesis
      by (simp add: Let_def)
  qed
  then show ?thesis
    unfolding point_nonempty [OF assms(1,2)] assms(4) [symmetric] by simp
qed

text \<open>
  C1 as stated fails on a signal with no sample: \<open>point\<close> raises, and returns no field
  to equal the weighted interpolation.
\<close>

theorem point_is_weighted_interpolation_counterexample:
  "point 343 (0, 0, 0) (Signal [] 8000) 0 [(0, 3, 4)] None
     \<noteq> Inr [Fin (1 / (4 * pi * 5) * interpolated_signal [] 8000 (0 - 0 - 5 / 343))]"
  by (simp add: point_def np_interp_def)

text \<open>
  A source at the origin, the samples \<open>1, 3\<close> at 2 Hz, a grid point at distance 1 and
  \<open>c = 1\<close>: at time \<open>5/4\<close> the retarded time \<open>1/4\<close> is halfway between the two samples.
\<close>

theorem point_is_weighted_interpolation_witness:
  "point 343 (0, 0, 0) (Signal [1, 3] 2) (5 / 4) [(0, 0, 1)] (Some 1)
     = Inr [Fin (1 / (4 * pi) * 2)]"
proof -
  have h1: "as_delayed_signal (Signal [1, 3] 2) = ([1, 3], 2, 0)" by simp
  have h2: "[1, 3 :: real] \<noteq> []" by simp
  have h3: "(0::real) < 2" by simp
  have h4: "(1::real) = (case Some 1 of None \<Rightarrow> 343 | Some v \<Rightarrow> v)" by simp
  have h5: "(1::real) \<noteq> 0" by simp
  have s: "interpolated_signal [1, 3] 2 (1 / 4) = 2"
    by (simp add: interpolated_signal_def Let_def)
  from point_is_weighted_interpolation [OF h1 h2 h3 h4 h5, of "(0, 0, 0)" "5 / 4" "[(0, 0, 1)]"]
  show ?thesis by (simp add: s)
qed

text \<open>
  C2, amended. With at least one sample and a positive sample rate, the value of
  \<open>point\<close> at a grid point other than the source position is zero as soon as the
  retarded time is before the time of the first sample, \<open>0\<close>, or after the time of the
  last one, \<open>(N - 1) / samplerate\<close>.
\<close>

theorem causality:
  assumes "as_delayed_signal signal = (data, samplerate, signal_offset)"
    and "data \<noteq> []" and "0 < samplerate"
    and "i < length grid" and "grid ! i \<noteq> xs"
    and "retarded_time =
           fl_sub (Fin (observation_time - signal_offset))
             (fl_div (Fin (linalg_norm_diff (grid ! i) xs))
                (Fin (case c of None \<Rightarrow> defs_c | Some v \<Rightarrow> v)))"
    and "fl_less retarded_time (Fin 0)
           \<or> fl_less (Fin (real (length data - 1) / samplerate)) retarded_time"
  shows "\<exists>a. point defs_c xs signal observation_time grid c = Inr a \<and> a ! i = Fin 0"
proof -
  let ?c = "case c of None \<Rightarrow> defs_c | Some v \<Rightarrow> v"
  have r: "linalg_norm_diff (grid ! i) xs \<noteq> 0"
    using assms(5) by (simp add: linalg_norm_diff_zero_iff)
  have "interp_at retarded_time (map (\<lambda>i. real i / samplerate) [0..<length data]) data 0 0
          = Fin 0"
    using assms(2,3,7) by (intro interp_at_outside) simp_all
  then have "point_value ?c xs data samplerate signal_offset observation_time (grid ! i) = Fin 0"
    unfolding point_value_def assms(6) [symmetric] weight_finite [OF r] by simp
  then show ?thesis
    using assms(4) by (simp add: point_nonempty [OF assms(1,2)])
qed

text \<open>
  C2 as stated fails at a grid point that is the source position: the weight is
  infinite, the interpolation gives zero after the last sample, and their product is a
  NaN, not zero.
\<close>

theorem causality_counterexample:
  "point 343 (0, 0, 0) (Signal [1] 1) 5 [(0, 0, 0)] None = Inr [NaN]"
  by (simp add: point_def np_interp_def interp_at_def fl_sub_def)

theorem causality_witness:
  "(\<exists>a. point 343 (0, 0, 0) (Signal [1, 2] 1) 5 [(1, 0, 0)] None = Inr a \<and> a ! 0 = Fin 0)"
proof -
  have "fl_less (fl_sub (Fin (5 - 0)) (fl_div (Fin (linalg_norm_diff ([(1, 0, 0)] ! 0) (0, 0, 0)))
                (Fin (case None of None \<Rightarrow> 343 | Some v \<Rightarrow> v)))) (Fin 0)
         \<or> fl_less (Fin (real (length [1, 2 :: real] - 1) / 1))
             (fl_sub (Fin (5 - 0)) (fl_div (Fin (linalg_norm_diff ([(1, 0, 0)] ! 0) (0, 0, 0)))
                (Fin (case None of None \<Rightarrow> 343 | Some v \<Rightarrow> v))))"
    by (simp add: fl_sub_def)
  then show ?thesis
    by (intro causality [where data = "[1, 2]" and samplerate = 1 and signal_offset = 0]) simp_all
qed

text \<open>
  C8, amended. On a signal with no sample, \<open>point\<close> raises the \<open>ValueError\<close> of
  \<open>np.interp\<close>, whatever the other arguments are.
\<close>

theorem empty_signal_raises:
  assumes "fst (as_delayed_signal signal) = []"
  shows "point defs_c xs signal observation_time grid c
           = Inl (ValueError ''array of sample points is empty'')"
proof -
  obtain data samplerate signal_offset
    where s: "as_delayed_signal signal = (data, samplerate, signal_offset)"
    by (cases "as_delayed_signal signal") auto
  with assms have "data = []" by simp
  with s show ?thesis by (rule point_empty)
qed

text \<open>
  C8 as stated fails: with no sample \<open>point\<close> returns no field, it raises.
\<close>

theorem empty_signal_counterexample:
  "point 343 (0, 0, 0) (Signal [] 44100) 0 [(1, 0, 0)] None
     = Inl (ValueError ''array of sample points is empty'')"
  by (simp add: point_def np_interp_def)

theorem empty_signal_raises_witness:
  "fst (as_delayed_signal (DelayedSignal [] 44100 (1 / 2))) = []
   \<and> point 343 (0, 0, 0) (DelayedSignal [] 44100 (1 / 2)) 0 [(1, 0, 0), (2, 0, 0)] (Some 340)
       = Inl (ValueError ''array of sample points is empty'')"
  using empty_signal_raises [of "DelayedSignal [] 44100 (1 / 2)" 343 "(0, 0, 0)" 0
      "[(1, 0, 0), (2, 0, 0)]" "Some 340"]
  by simp

text \<open>
  C9, amended. On a signal with at least one sample, \<open>point\<close> raises nothing and
  returns one value per grid point; the value is finite at every grid point other than
  the source position, and an infinity or a NaN at a grid point that is the source
  position.
\<close>

theorem anomalies_only_at_source:
  assumes "fst (as_delayed_signal signal) \<noteq> []"
  shows "\<exists>a. point defs_c xs signal observation_time grid c = Inr a
           \<and> length a = length grid
           \<and> (\<forall>i<length grid. is_finite (a ! i) \<longleftrightarrow> grid ! i \<noteq> xs)"
proof -
  obtain data samplerate signal_offset
    where s: "as_delayed_signal signal = (data, samplerate, signal_offset)"
    by (cases "as_delayed_signal signal") auto
  with assms have "data \<noteq> []" by simp
  then show ?thesis
    by (simp add: point_nonempty [OF s] point_value_finite_iff)
qed

text \<open>
  C9 as stated fails on a signal with no sample, where \<open>point\<close> raises.
\<close>

theorem no_exception_counterexample:
  "isl (point 343 (1, 2, 3) (DelayedSignal [] 48000 0) 1 [(0, 0, 1)] (Some 340))"
  by (simp add: point_def np_interp_def)

theorem anomalies_only_at_source_witness:
  "fst (as_delayed_signal (Signal [1, 2] 1)) \<noteq> []
   \<and> (\<exists>a. point 343 (0, 0, 0) (Signal [1, 2] 1) 0 [(0, 0, 0), (1, 0, 0)] None = Inr a
         \<and> length a = 2 \<and> \<not> is_finite (a ! 0) \<and> is_finite (a ! 1))"
proof -
  have h: "fst (as_delayed_signal (Signal [1, 2] 1)) \<noteq> []" by simp
  from anomalies_only_at_source [OF h, of 343 "(0, 0, 0)" 0 "[(0, 0, 0), (1, 0, 0)]" None]
  obtain a where a: "point 343 (0, 0, 0) (Signal [1, 2] 1) 0 [(0, 0, 0), (1, 0, 0)] None = Inr a"
    "length a = length [(0, 0, 0), (1, 0, 0) :: vec3]"
    "\<forall>i<length [(0, 0, 0), (1, 0, 0) :: vec3].
        is_finite (a ! i) \<longleftrightarrow> [(0, 0, 0), (1, 0, 0)] ! i \<noteq> ((0, 0, 0) :: vec3)"
    by blast
  from a(3) have "\<not> is_finite (a ! 0)" "is_finite (a ! 1)" by simp_all
  with a(1,2) h show ?thesis by simp
qed

section \<open>The superposition of the images\<close>

lemma image_loop_ones:
  "\<forall>s \<in> set strengths. s = 1 \<Longrightarrow> length positions = length strengths \<Longrightarrow>
     image_loop defs_c signal observation_time grid c p (zip positions strengths)
       = direct_sum defs_c signal observation_time grid c p positions"
proof (induction positions strengths arbitrary: p rule: list_induct2')
  case (4 position positions s strengths)
  then show ?case by (simp add: scale_one split: sum.splits)
qed simp_all




text \<open>
  The two loops side by side. Either the accumulators are the same array over the grid,
  or the loop of the code has not added anything yet and the naive one holds zeros; in
  the second case an image of nonzero strength is still to come.
\<close>

lemma loops_agree:
  assumes "fst (as_delayed_signal signal) \<noteq> []"
  shows "\<forall>z \<in> set zs. snd z = 0 \<longrightarrow> fst z \<notin> set grid \<Longrightarrow>
     (p = q \<and> (\<exists>a. p = Array a \<and> length a = length grid))
       \<or> (p = Scalar (Fin 0)
           \<and> (q = Scalar (Fin 0) \<or> q = Array (replicate (length grid) (Fin 0)))
           \<and> (\<exists>z \<in> set zs. snd z \<noteq> 0)) \<Longrightarrow>
     image_loop defs_c signal observation_time grid c p zs
       = naive_loop defs_c signal observation_time grid c q zs"
proof (induction zs arbitrary: p q)
  case Nil
  then show ?case by auto
next
  case (Cons z zs)
  let ?n = "length grid"
  obtain position strength where z: "z = (position, strength)" by (cases z) auto
  from point_returns [OF assms] obtain g where
    g: "point defs_c position signal observation_time grid c = Inr g" "length g = ?n"
       "position \<notin> set grid \<longrightarrow> (\<forall>v \<in> set g. is_finite v)"
    by blast
  have rest: "\<forall>z \<in> set zs. snd z = 0 \<longrightarrow> fst z \<notin> set grid"
    using Cons.prems(1) by simp
  have len: "length (scale strength g) = ?n"
    using g(2) by (simp add: scale_def)
  show ?case
  proof (cases "strength = 0")
    case True
    with Cons.prems(1) z g(3) have "\<forall>v \<in> set g. is_finite v" by simp
    then have zeros: "scale strength g = replicate ?n (Fin 0)"
      using True g(2) by (simp add: scale_zero_finite)
    have "(p = iadd q (scale strength g) \<and> (\<exists>a. p = Array a \<and> length a = ?n))
            \<or> (p = Scalar (Fin 0)
                \<and> (iadd q (scale strength g) = Scalar (Fin 0)
                    \<or> iadd q (scale strength g) = Array (replicate ?n (Fin 0)))
                \<and> (\<exists>z \<in> set zs. snd z \<noteq> 0))"
      using Cons.prems(2) True z unfolding zeros
      by (auto simp: map2_add_zeros)
    from Cons.IH [OF rest this] show ?thesis
      using True z g(1) by simp
  next
    case False
    have same: "iadd p (scale strength g) = iadd q (scale strength g)"
      using Cons.prems(2) len by (auto simp: map2_replicate_left)
    have "\<exists>a. iadd p (scale strength g) = Array a \<and> length a = ?n"
      using Cons.prems(2) len by auto
    with same have "(iadd p (scale strength g) = iadd q (scale strength g)
                     \<and> (\<exists>a. iadd p (scale strength g) = Array a \<and> length a = ?n))
            \<or> (iadd p (scale strength g) = Scalar (Fin 0)
                \<and> (iadd q (scale strength g) = Scalar (Fin 0)
                    \<or> iadd q (scale strength g) = Array (replicate ?n (Fin 0)))
                \<and> (\<exists>z \<in> set zs. snd z \<noteq> 0))"
      by blast
    from Cons.IH [OF rest this] show ?thesis
      using False z g(1) by simp
  qed
qed

lemma loops_both_raise:
  assumes "fst (as_delayed_signal signal) = []" and "\<exists>z \<in> set zs. snd z \<noteq> 0"
  shows "image_loop defs_c signal observation_time grid c p zs
           = Inl (ValueError ''array of sample points is empty'')"
    and "naive_loop defs_c signal observation_time grid c q zs
           = Inl (ValueError ''array of sample points is empty'')"
proof -
  obtain data samplerate signal_offset
    where s: "as_delayed_signal signal = (data, samplerate, signal_offset)"
    by (cases "as_delayed_signal signal") auto
  with assms(1) have "data = []" by simp
  note raises = point_empty [OF s this]
  show "image_loop defs_c signal observation_time grid c p zs
           = Inl (ValueError ''array of sample points is empty'')"
    using assms(2)
  proof (induction zs)
    case Nil
    then show ?case by simp
  next
    case (Cons z zs)
    obtain position strength where z: "z = (position, strength)" by (cases z) auto
    show ?case
    proof (cases "strength = 0")
      case True
      with Cons.prems z have "\<exists>z \<in> set zs. snd z \<noteq> 0" by simp
      from Cons.IH [OF this] show ?thesis using True z by simp
    next
      case False
      then show ?thesis using z by (simp add: raises)
    qed
  qed
  from assms(2) obtain z rest where "zs = z # rest" by (cases zs) auto
  then show "naive_loop defs_c signal observation_time grid c q zs
           = Inl (ValueError ''array of sample points is empty'')"
    by (cases z) (simp add: raises)
qed

text \<open>
  C3. With \<open>max_order = 0\<close>, when the enumeration returns the real source alone and there
  are six coefficients (given or default), \<open>point_image_sources\<close> returns what \<open>point\<close>
  returns at the real source: the same array, or the same error.
\<close>

theorem degenerate_room:
  assumes "source_alone image_sources_for_box x0 L"
    and "case coeffs of None \<Rightarrow> True | Some cs \<Rightarrow> length cs = 6"
  shows "point_image_sources defs_c image_sources_for_box x0 signal observation_time grid L 0
             coeffs c
           = (case point defs_c x0 signal observation_time grid c of
                Inl e \<Rightarrow> Inl e | Inr g \<Rightarrow> Inr (Array g))"
proof -
  let ?coeffs = "case coeffs of None \<Rightarrow> replicate 6 1 | Some cs \<Rightarrow> cs"
  have "length ?coeffs = 6"
    using assms(2) by (cases coeffs) simp_all
  then have "source_strengths ?coeffs [replicate 6 0] = Inr [1]"
    by (rule source_strengths_zero_row)
  moreover have "image_sources_for_box x0 L 0 = ([x0], [replicate 6 0])"
    using assms(1) by (simp add: source_alone_def)
  ultimately show ?thesis
    by (simp add: point_image_sources_def scale_one map_fl_add_zero del: source_strengths.simps
          split: sum.splits)
qed

theorem degenerate_room_witness:
  "source_alone (\<lambda>x0 L n. ([x0], [replicate 6 0])) (1, 1, 1) (2, 3, 4)
   \<and> point_image_sources 343 (\<lambda>x0 L n. ([x0], [replicate 6 0])) (1, 1, 1) (Signal [1, 2] 1) 0
         [(0, 0, 0)] (2, 3, 4) 0 (Some [0, 0, 0, 0, 0, 0]) None
       = (case point 343 (1, 1, 1) (Signal [1, 2] 1) 0 [(0, 0, 0)] None of
            Inl e \<Rightarrow> Inl e | Inr g \<Rightarrow> Inr (Array g))"
proof -
  have h: "source_alone (\<lambda>x0 L n. ([x0], [replicate 6 0])) (1, 1, 1) (2, 3, 4)"
    by (simp add: source_alone_def)
  have k: "case Some [0, 0, 0, 0, 0, 0 :: real] of None \<Rightarrow> True | Some cs \<Rightarrow> length cs = 6"
    by simp
  from degenerate_room [OF h k] h show ?thesis by blast
qed

text \<open>
  C4. With the coefficients omitted, when the enumeration returns as many positions as
  order rows and each row counts the six walls, \<open>point_image_sources\<close> is the plain sum
  of \<open>point\<close> over the enumerated positions.
\<close>

theorem lossless_superposition:
  assumes "image_sources_for_box x0 L max_order = (positions, order)"
    and "length positions = length order"
    and "\<forall>row \<in> set order. length row = 6"
  shows "point_image_sources defs_c image_sources_for_box x0 signal observation_time grid L
             max_order None c
           = direct_sum defs_c signal observation_time grid c (Scalar (Fin 0)) positions"
proof -
  have "source_strengths (replicate 6 1) order = Inr (replicate (length order) 1)"
    using assms(3) by (rule source_strengths_ones)
  moreover have "image_loop defs_c signal observation_time grid c (Scalar (Fin 0))
                   (zip positions (replicate (length order) 1))
                 = direct_sum defs_c signal observation_time grid c (Scalar (Fin 0)) positions"
    by (rule image_loop_ones) (use assms(2) in simp_all)
  ultimately show ?thesis
    using assms(1) by (simp add: point_image_sources_def)
qed

theorem lossless_superposition_witness:
  "point_image_sources 343
       (\<lambda>x0 L n. ([x0, (- 1 / 2, 1 / 2, 1 / 2)], [[0, 0, 0, 0, 0, 0], [1, 0, 0, 0, 0, 0]]))
       (1 / 2, 1 / 2, 1 / 2) (Signal [1, 2] 1) 0 [(0, 0, 0)] (1, 1, 1) 1 None None
     = direct_sum 343 (Signal [1, 2] 1) 0 [(0, 0, 0)] None (Scalar (Fin 0))
         [(1 / 2, 1 / 2, 1 / 2), (- 1 / 2, 1 / 2, 1 / 2)]"
  by (rule lossless_superposition [where order = "[[0, 0, 0, 0, 0, 0], [1, 0, 0, 0, 0, 0]]"])
    simp_all

lemma point_at_unit_distance:
  "point 343 (1 / 2, 1 / 2, 1 / 2) (Signal [1, 1] 1) (1 / 343) [(- (1 / 2), 1 / 2, 1 / 2)] None
     = Inr [Fin (1 / (4 * pi))]"
  by (simp add: point_def np_interp_def interp_at_def binary_search_with_guess_def fl_sub_def
        upt_conv_Cons)

lemma point_at_the_image:
  "point 343 (- (1 / 2), 1 / 2, 1 / 2) (Signal [1, 1] 1) (1 / 343) [(- (1 / 2), 1 / 2, 1 / 2)] None
     = Inr [PInf]"
  by (simp add: point_def np_interp_def interp_at_def binary_search_with_guess_def fl_sub_def
        upt_conv_Cons)

lemma strengths_first_wall_dead:
  "source_strengths [0, 1, 1, 1, 1, 1] [[0, 0, 0, 0, 0, 0], [1, 0, 0, 0, 0, 0]] = Inr [1, 0]"
  by (simp add: power_row_def)

text \<open>
  C5, amended. When no grid point is the position of an image of strength zero, and
  some image has a strength other than zero, \<open>point_image_sources\<close> returns exactly what
  the naive sum over all the images returns (the same field, or the same error). An image
  reflected at a wall whose coefficient is zero has strength zero, and the loop passes
  over it.
\<close>

theorem skipping_dead_images:
  assumes "image_sources_for_box x0 L max_order = (positions, order)"
    and "cs = (case coeffs of None \<Rightarrow> replicate 6 1 | Some v \<Rightarrow> v)"
    and "source_strengths cs order = Inr strengths"
    and "\<forall>z \<in> set (zip positions strengths). snd z = 0 \<longrightarrow> fst z \<notin> set grid"
    and "\<exists>z \<in> set (zip positions strengths). snd z \<noteq> 0"
  shows "point_image_sources defs_c image_sources_for_box x0 signal observation_time
             grid L max_order coeffs c
           = naive_image_sources defs_c image_sources_for_box x0 signal observation_time
               grid L max_order coeffs c
       \<and> (\<forall>i w. i < length order \<and> length (order ! i) = length cs \<and> w < length cs
               \<and> cs ! w = 0 \<and> 0 < order ! i ! w
             \<longrightarrow> strengths ! i = 0
                 \<and> (\<forall>p position rest.
                       image_loop defs_c signal observation_time grid c p
                           ((position, strengths ! i) # rest)
                         = image_loop defs_c signal observation_time grid c p rest))"
proof (intro conjI allI impI)
  have "image_loop defs_c signal observation_time grid c (Scalar (Fin 0))
            (zip positions strengths)
          = naive_loop defs_c signal observation_time grid c (Scalar (Fin 0))
              (zip positions strengths)"
  proof (cases "fst (as_delayed_signal signal) = []")
    case True
    then show ?thesis
      using loops_both_raise [OF True assms(5)] by simp
  next
    case False
    then show ?thesis
      using assms(4,5) by (intro loops_agree) simp_all
  qed
  then show "point_image_sources defs_c image_sources_for_box x0 signal observation_time
                 grid L max_order coeffs c
               = naive_image_sources defs_c image_sources_for_box x0 signal observation_time
                   grid L max_order coeffs c"
    using assms(1,3) unfolding assms(2)
    by (simp add: point_image_sources_def naive_image_sources_def)
next
  fix i w
  assume h: "i < length order \<and> length (order ! i) = length cs \<and> w < length cs
               \<and> cs ! w = 0 \<and> 0 < order ! i ! w"
  then show "strengths ! i = 0"
    using zero_wall_zero_strength [OF assms(3)] by blast
  then show "image_loop defs_c signal observation_time grid c p
                 ((position, strengths ! i) # rest)
               = image_loop defs_c signal observation_time grid c p rest"
    for p position rest
    by simp
qed

text \<open>
  C5 as stated fails when a grid point is the position of an image of strength zero:
  there \<open>point\<close> is infinite, \<open>0 * inf\<close> is a NaN, and the naive sum is a NaN where the
  code, which never evaluates that image, returns a finite value.
\<close>

theorem skipping_dead_images_counterexample:
  "point_image_sources 343
       (\<lambda>x0 L n. ([x0, (- (1 / 2), 1 / 2, 1 / 2)], [[0, 0, 0, 0, 0, 0], [1, 0, 0, 0, 0, 0]]))
       (1 / 2, 1 / 2, 1 / 2) (Signal [1, 1] 1) (1 / 343) [(- (1 / 2), 1 / 2, 1 / 2)] (1, 1, 1) 1
       (Some [0, 1, 1, 1, 1, 1]) None
     = Inr (Array [Fin (1 / (4 * pi))])
   \<and> naive_image_sources 343
       (\<lambda>x0 L n. ([x0, (- (1 / 2), 1 / 2, 1 / 2)], [[0, 0, 0, 0, 0, 0], [1, 0, 0, 0, 0, 0]]))
       (1 / 2, 1 / 2, 1 / 2) (Signal [1, 1] 1) (1 / 343) [(- (1 / 2), 1 / 2, 1 / 2)] (1, 1, 1) 1
       (Some [0, 1, 1, 1, 1, 1]) None
     = Inr (Array [NaN])"
proof -
  have loops: "image_loop 343 (Signal [1, 1] 1) (1 / 343) [(- (1 / 2), 1 / 2, 1 / 2)] None
                 (Scalar (Fin 0)) (zip [(1 / 2, 1 / 2, 1 / 2), (- (1 / 2), 1 / 2, 1 / 2)] [1, 0])
               = Inr (Array [Fin (1 / (4 * pi))])"
    "naive_loop 343 (Signal [1, 1] 1) (1 / 343) [(- (1 / 2), 1 / 2, 1 / 2)] None
                 (Scalar (Fin 0)) (zip [(1 / 2, 1 / 2, 1 / 2), (- (1 / 2), 1 / 2, 1 / 2)] [1, 0])
               = Inr (Array [NaN])"
    by (simp_all add: point_at_unit_distance point_at_the_image scale_def)
  show ?thesis
    by (simp only: point_image_sources_def naive_image_sources_def Let_def option.case
          prod.case strengths_first_wall_dead sum.case loops simp_thms)
qed

theorem skipping_dead_images_witness:
  "point_image_sources 343
       (\<lambda>x0 L n. ([x0, (- (1 / 2), 1 / 2, 1 / 2)], [[0, 0, 0, 0, 0, 0], [1, 0, 0, 0, 0, 0]]))
       (1 / 2, 1 / 2, 1 / 2) (Signal [1, 1] 1) (1 / 343) [(0, 0, 0)] (1, 1, 1) 1
       (Some [0, 1, 1, 1, 1, 1]) None
     = naive_image_sources 343
       (\<lambda>x0 L n. ([x0, (- (1 / 2), 1 / 2, 1 / 2)], [[0, 0, 0, 0, 0, 0], [1, 0, 0, 0, 0, 0]]))
       (1 / 2, 1 / 2, 1 / 2) (Signal [1, 1] 1) (1 / 343) [(0, 0, 0)] (1, 1, 1) 1
       (Some [0, 1, 1, 1, 1, 1]) None
   \<and> (\<exists>strengths.
         source_strengths [0, 1, 1, 1, 1, 1] [[0, 0, 0, 0, 0, 0], [1, 0, 0, 0, 0, 0]]
           = Inr strengths \<and> strengths ! 1 = 0)"
proof -
  let ?enum = "\<lambda>(x0::vec3) (L::vec3) (n::int).
     ([x0, (- (1 / 2), 1 / 2, 1 / 2)], [[0, 0, 0, 0, 0, 0], [1, 0, 0, 0, 0, 0 :: nat]])"
  let ?order = "[[0, 0, 0, 0, 0, 0], [1, 0, 0, 0, 0, 0 :: nat]]"
  have h1: "?enum (1 / 2, 1 / 2, 1 / 2) (1, 1, 1) 1
              = ([(1 / 2, 1 / 2, 1 / 2), (- (1 / 2), 1 / 2, 1 / 2)], ?order)"
    by simp
  have h2: "[0, 1, 1, 1, 1, 1] = (case Some [0, 1, 1, 1, 1, 1 :: real] of
               None \<Rightarrow> replicate 6 1 | Some v \<Rightarrow> v)"
    by simp
  have h4: "\<forall>z \<in> set (zip [(1 / 2, 1 / 2, 1 / 2), (- (1 / 2), 1 / 2, 1 / 2)] [1, 0 :: real]).
              snd z = 0 \<longrightarrow> fst z \<notin> set [(0, 0, 0) :: vec3]"
    by simp
  have h5: "\<exists>z \<in> set (zip [(1 / 2, 1 / 2, 1 / 2), (- (1 / 2), 1 / 2, 1 / 2) :: vec3]
              [1, 0 :: real]). snd z \<noteq> 0"
    by simp
  note inst = skipping_dead_images [where image_sources_for_box = ?enum
      and signal = "Signal [1, 1] 1" and ?x0.0 = "(1 / 2, 1 / 2, 1 / 2)" and L = "(1, 1, 1)"
      and max_order = 1 and positions = "[(1 / 2, 1 / 2, 1 / 2), (- (1 / 2), 1 / 2, 1 / 2)]"
      and order = ?order
      and coeffs = "Some [0, 1, 1, 1, 1, 1]" and cs = "[0, 1, 1, 1, 1, 1]"
      and strengths = "[1, 0]" and grid = "[(0, 0, 0)]" and defs_c = 343
      and observation_time = "1 / 343" and c = None,
      OF h1 h2 strengths_first_wall_dead h4 h5]
  from inst have eq: "point_image_sources 343 ?enum (1 / 2, 1 / 2, 1 / 2) (Signal [1, 1] 1)
        (1 / 343) [(0, 0, 0)] (1, 1, 1) 1 (Some [0, 1, 1, 1, 1, 1]) None
      = naive_image_sources 343 ?enum (1 / 2, 1 / 2, 1 / 2) (Signal [1, 1] 1)
        (1 / 343) [(0, 0, 0)] (1, 1, 1) 1 (Some [0, 1, 1, 1, 1, 1]) None"
    by (rule conjunct1)
  from inst have "1 < length ?order \<and> length (?order ! 1) = length [0, 1, 1, 1, 1, 1 :: real]
        \<and> 0 < length [0, 1, 1, 1, 1, 1 :: real] \<and> [0, 1, 1, 1, 1, 1 :: real] ! 0 = 0
        \<and> 0 < ?order ! 1 ! 0 \<longrightarrow> [1, 0 :: real] ! 1 = 0"
    by blast
  with eq strengths_first_wall_dead show ?thesis by simp
qed




text \<open>
  C10. For an image with reflection order zero at a wall, the strength does not change
  when that wall's coefficient is replaced by any other value. An image with order zero
  at every wall has strength 1 whatever the coefficients are, zeros included, so the
  loop evaluates \<open>point\<close> at it and adds the result.
\<close>

theorem zero_order_ignores_coefficient:
  assumes "\<forall>row \<in> set order. length row = length coeffs" and "i < length order"
  shows "(\<forall>w a. w < length coeffs \<and> order ! i ! w = 0 \<longrightarrow>
            (\<exists>ss ss'. source_strengths coeffs order = Inr ss
               \<and> source_strengths (coeffs[w := a]) order = Inr ss' \<and> ss' ! i = ss ! i))
       \<and> ((\<forall>k<length coeffs. order ! i ! k = 0) \<longrightarrow>
            (\<exists>ss. source_strengths coeffs order = Inr ss \<and> ss ! i = 1
               \<and> (\<forall>p position rest.
                     image_loop defs_c signal observation_time grid c p
                         ((position, ss ! i) # rest)
                       = (case point defs_c position signal observation_time grid c of
                            Inl e \<Rightarrow> Inl e
                          | Inr g \<Rightarrow>
                              image_loop defs_c signal observation_time grid c (iadd p g)
                                rest))))"
proof (intro conjI allI impI)
  fix w a
  assume h: "w < length coeffs \<and> order ! i ! w = 0"
  have rows': "\<forall>row \<in> set order. length row = length (coeffs[w := a])"
    using assms(1) by simp
  show "\<exists>ss ss'. source_strengths coeffs order = Inr ss
          \<and> source_strengths (coeffs[w := a]) order = Inr ss' \<and> ss' ! i = ss ! i"
    unfolding source_strengths_rows [OF assms(1)] source_strengths_rows [OF rows']
    using assms(2) h by (simp add: strength_ignores_unreflected_wall)
next
  assume z: "\<forall>k<length coeffs. order ! i ! k = 0"
  let ?ss = "map (\<lambda>row. \<Prod>k<length coeffs. coeffs ! k ^ (row ! k)) order"
  have one: "?ss ! i = 1"
    using assms(2) z by simp
  have "image_loop defs_c signal observation_time grid c p ((position, ?ss ! i) # rest)
          = (case point defs_c position signal observation_time grid c of
               Inl e \<Rightarrow> Inl e
             | Inr g \<Rightarrow> image_loop defs_c signal observation_time grid c (iadd p g) rest)"
    for p position rest
    unfolding one by (simp add: scale_one split: sum.splits)
  with one show "\<exists>ss. source_strengths coeffs order = Inr ss \<and> ss ! i = 1
          \<and> (\<forall>p position rest.
                image_loop defs_c signal observation_time grid c p ((position, ss ! i) # rest)
                  = (case point defs_c position signal observation_time grid c of
                       Inl e \<Rightarrow> Inl e
                     | Inr g \<Rightarrow>
                         image_loop defs_c signal observation_time grid c (iadd p g) rest))"
    unfolding source_strengths_rows [OF assms(1)] by blast
qed

theorem zero_order_ignores_coefficient_witness:
  "(\<exists>ss ss'. source_strengths [0, 1 / 2, 0, 0, 0, 0] [[0, 0, 0, 0, 0, 0], [0, 1, 0, 0, 0, 0]]
        = Inr ss
      \<and> source_strengths ([0, 1 / 2, 0, 0, 0, 0][0 := 1])
           [[0, 0, 0, 0, 0, 0], [0, 1, 0, 0, 0, 0]] = Inr ss'
      \<and> ss' ! 1 = ss ! 1)
   \<and> (\<exists>ss. source_strengths [0, 0, 0, 0, 0, 0] [[0, 0, 0, 0, 0, 0], [0, 1, 0, 0, 0, 0]] = Inr ss
         \<and> ss ! 0 = 1)"
proof -
  let ?order = "[[0, 0, 0, 0, 0, 0], [0, 1, 0, 0, 0, 0 :: nat]]"
  have r1: "\<forall>row \<in> set ?order. length row = length [0, 1 / 2, 0, 0, 0, 0 :: real]" by simp
  have r2: "\<forall>row \<in> set ?order. length row = length [0, 0, 0, 0, 0, 0 :: real]" by simp
  have i1: "1 < length ?order" and i0: "0 < length ?order" by simp_all
  from zero_order_ignores_coefficient [OF r1 i1]
  have "0 < length [0, 1 / 2, 0, 0, 0, 0 :: real] \<and> ?order ! 1 ! 0 = 0 \<longrightarrow>
          (\<exists>ss ss'. source_strengths [0, 1 / 2, 0, 0, 0, 0] ?order = Inr ss
             \<and> source_strengths ([0, 1 / 2, 0, 0, 0, 0][0 := 1]) ?order = Inr ss'
             \<and> ss' ! 1 = ss ! 1)"
    by blast
  then have a: "\<exists>ss ss'. source_strengths [0, 1 / 2, 0, 0, 0, 0] ?order = Inr ss
             \<and> source_strengths ([0, 1 / 2, 0, 0, 0, 0][0 := 1]) ?order = Inr ss'
             \<and> ss' ! 1 = ss ! 1"
    by simp
  from zero_order_ignores_coefficient [OF r2 i0]
  have "(\<forall>k<length [0, 0, 0, 0, 0, 0 :: real]. ?order ! 0 ! k = 0) \<longrightarrow>
          (\<exists>ss. source_strengths [0, 0, 0, 0, 0, 0] ?order = Inr ss \<and> ss ! 0 = 1)"
    by blast
  moreover have "\<forall>k<length [0, 0, 0, 0, 0, 0 :: real]. ?order ! 0 ! k = 0"
    by (simp add: nth_Cons' )
  ultimately have b: "\<exists>ss. source_strengths [0, 0, 0, 0, 0, 0] ?order = Inr ss \<and> ss ! 0 = 1"
    by blast
  from a b show ?thesis by blast
qed

end
